theory Spec2Isabelle
  imports Main
begin

section \<open>Strings\<close>

text \<open>
  A Python \<open>str\<close> is modelled as a \<open>string\<close>; every \<open>char\<close> stands for the code point
  of the same number (0 to 255), so \<open>length\<close> is Python's \<open>len\<close> on that range.
  \<open>isspace\<close> is \<open>str.isspace\<close> on one character of that range, and \<open>strip\<close> is
  \<open>str.strip()\<close> with no argument: it removes the whitespace at both ends.
\<close>

definition isspace :: "char \<Rightarrow> bool" where
  "isspace c =
     (let n = (of_char c :: nat)
      in (9 \<le> n \<and> n \<le> 13) \<or> (28 \<le> n \<and> n \<le> 32) \<or> n = 133 \<or> n = 160)"

definition lstrip :: "string \<Rightarrow> string" where
  "lstrip s = dropWhile isspace s"

definition rstrip :: "string \<Rightarrow> string" where
  "rstrip s = rev (dropWhile isspace (rev s))"

definition strip :: "string \<Rightarrow> string" where
  "strip s = rstrip (lstrip s)"

section \<open>The validators of \<open>StudentForm\<close>\<close>

text \<open>
  A WTForms validator is called on the field's raw data. It returns, raises
  \<open>ValidationError\<close> (the message is recorded and the chain goes on) or raises
  \<open>StopValidation\<close> (the message is recorded and the chain stops).
\<close>

datatype message = Required | Length_between nat nat | Custom string

datatype verdict = Pass | ValidationError message | StopValidation message

type_synonym validator = "string \<Rightarrow> verdict"

text \<open>
  \<open>DataRequired\<close>: the data is truthy and, being a string, is not blank after
  \<open>strip()\<close>. On failure it empties the field's errors and stops the chain.
\<close>

definition DataRequired :: validator where
  "DataRequired s = (if s \<noteq> [] \<and> strip s \<noteq> [] then Pass else StopValidation Required)"

text \<open>\<open>Length(min, max)\<close> compares \<open>len\<close> of the raw data with both bounds.\<close>

definition Length :: "nat \<Rightarrow> nat \<Rightarrow> validator" where
  "Length mn mx s =
     (if mn \<le> length s \<and> length s \<le> mx then Pass else ValidationError (Length_between mn mx))"

text \<open>
  The character class \<open>[A-Za-z ]\<close>, and \<open>re.match\<close> of \<open>^[A-Za-z ]*$\<close>: in Python \<open>$\<close>
  matches at the end of the string and also just before a newline that ends the string.
\<close>

definition name_char :: "char \<Rightarrow> bool" where
  "name_char c =
     (let n = (of_char c :: nat)
      in (65 \<le> n \<and> n \<le> 90) \<or> (97 \<le> n \<and> n \<le> 122) \<or> n = 32)"

definition name_regex_match :: "string \<Rightarrow> bool" where
  "name_regex_match s =
     (list_all name_char s \<or>
      (s \<noteq> [] \<and> last s = CHR 0x0A \<and> list_all name_char (butlast s)))"

definition Regexp_name :: "message \<Rightarrow> validator" where
  "Regexp_name msg s = (if name_regex_match s then Pass else ValidationError msg)"

text \<open>
  \<open>Email\<close> hands the raw data to the \<open>email_validator\<close> package, which is not part of
  the repository: the check is the parameter \<open>ev\<close>.
\<close>

definition Email :: "(string \<Rightarrow> bool) \<Rightarrow> message \<Rightarrow> validator" where
  "Email ev msg s = (if ev s then Pass else ValidationError msg)"

text \<open>
  The validation chain of one field: the validators run in order on the same raw data,
  the errors accumulate, and the field is valid when none was recorded.
\<close>

fun run_validation_chain :: "validator list \<Rightarrow> string \<Rightarrow> message list \<Rightarrow> message list" where
  "run_validation_chain [] s errs = errs"
| "run_validation_chain (v # vs) s errs =
     (case v s of
        Pass \<Rightarrow> run_validation_chain vs s errs
      | ValidationError m \<Rightarrow> run_validation_chain vs s (errs @ [m])
      | StopValidation m \<Rightarrow> [m])"

definition fname_validators :: "validator list" where
  "fname_validators = [DataRequired, Length 2 50, Regexp_name (Custom ''Only letters allowed'')]"

definition lname_validators :: "validator list" where
  "lname_validators = [DataRequired, Length 2 50, Regexp_name (Custom ''Only letters allowed'')]"

definition email_validators :: "(string \<Rightarrow> bool) \<Rightarrow> validator list" where
  "email_validators ev = [DataRequired, Email ev (Custom ''Invalid email format'')]"

text \<open>The data of the three text fields of a form.\<close>

record formdata =
  fname_field :: string
  lname_field :: string
  email_field :: string

definition fname_errors :: "formdata \<Rightarrow> message list" where
  "fname_errors fd = run_validation_chain fname_validators (fname_field fd) []"

definition lname_errors :: "formdata \<Rightarrow> message list" where
  "lname_errors fd = run_validation_chain lname_validators (lname_field fd) []"

definition email_errors :: "(string \<Rightarrow> bool) \<Rightarrow> formdata \<Rightarrow> message list" where
  "email_errors ev fd = run_validation_chain (email_validators ev) (email_field fd) []"

text \<open>\<open>form.validate()\<close> runs every field and succeeds when no field has an error.\<close>

definition validate :: "(string \<Rightarrow> bool) \<Rightarrow> formdata \<Rightarrow> bool" where
  "validate ev fd = (fname_errors fd = [] \<and> lname_errors fd = [] \<and> email_errors ev fd = [])"

section \<open>The store\<close>

text \<open>
  The table \<open>student\<close>: its rows in the order of their ids. \<open>next_id\<close> is the id SQLite
  gives to a new row of a table with an integer primary key: one more than the
  largest id, and 1 when the table is empty. (A table whose largest id is
  \<open>max_rowid\<close>, where SQLite picks an unused id at random, is outside the model.)
\<close>

record student =
  id_col :: int
  fname :: string
  lname :: string
  email :: string

definition next_id :: "student list \<Rightarrow> int" where
  "next_id rows = (case rows of [] \<Rightarrow> 1 | r # rs \<Rightarrow> fold max (map id_col rs) (id_col r) + 1)"

text \<open>
  The SQLAlchemy session of one request: \<open>committed\<close> is the table in the database,
  \<open>pending\<close> the table as the open transaction sees it. \<open>add\<close>, an attribute assignment
  and \<open>delete\<close> change \<open>pending\<close> only; \<open>commit\<close> writes it to the database, or raises
  when the database refuses; \<open>rollback\<close> discards it.
\<close>

record session =
  committed :: "student list"
  pending :: "student list"

datatype exn = StoreError | OverflowError | TypeError

text \<open>SQLite stores an integer in 64 bits; \<open>max_rowid\<close> is the largest id a row can have.\<close>

definition max_rowid :: int where
  "max_rowid = 9223372036854775807"

definition begin_session :: "student list \<Rightarrow> session" where
  "begin_session rows = \<lparr>committed = rows, pending = rows\<rparr>"

definition add :: "student \<Rightarrow> session \<Rightarrow> session" where
  "add r s = s\<lparr>pending := pending s @ [r]\<rparr>"

definition assign :: "int \<Rightarrow> string \<Rightarrow> string \<Rightarrow> string \<Rightarrow> session \<Rightarrow> session" where
  "assign i fn ln em s =
     s\<lparr>pending := map (\<lambda>r. if id_col r = i then r\<lparr>fname := fn, lname := ln, email := em\<rparr> else r)
                      (pending s)\<rparr>"

definition delete_row :: "int \<Rightarrow> session \<Rightarrow> session" where
  "delete_row i s = s\<lparr>pending := filter (\<lambda>r. id_col r \<noteq> i) (pending s)\<rparr>"

definition commit :: "bool \<Rightarrow> session \<Rightarrow> exn + session" where
  "commit ok s = (if ok then Inr (s\<lparr>committed := pending s\<rparr>) else Inl StoreError)"

definition rollback :: "session \<Rightarrow> session" where
  "rollback s = s\<lparr>pending := committed s\<rparr>"

text \<open>The row of a table with that primary key, if there is one.\<close>

definition lookup :: "student list \<Rightarrow> int \<Rightarrow> student option" where
  "lookup rows i = find (\<lambda>r. id_col r = i) rows"

text \<open>
  \<open>Student.query.get\<close> binds the Python integer to the query and looks the row up. The
  integers of Python are unbounded, and the \<open>sqlite3\<close> driver raises \<open>OverflowError\<close> for
  one that does not fit in 64 bits.
\<close>

definition get :: "session \<Rightarrow> int \<Rightarrow> exn + student option" where
  "get s i = (if max_rowid < i then Inl OverflowError else Inr (lookup (pending s) i))"

text \<open>\<open>SELECT * FROM student WHERE email=:email\<close> with the value bound to \<open>:email\<close>.\<close>

definition select_by_email :: "session \<Rightarrow> string \<Rightarrow> student list" where
  "select_by_email s e = filter (\<lambda>r. email r = e) (pending s)"

section \<open>Requests and responses\<close>

text \<open>
  A request after URL routing: the method, the route it matched with the id of the
  path (\<open><int:id>\<close> matches decimal digits only, of any number, so the id is a natural
  number), whether it carries a valid CSRF token, the body of a POST and the \<open>email\<close>
  query argument (\<open>None\<close> when absent). The body holds, for each field of the form, the
  value posted under its key, or \<open>None\<close> when the body has no such key. The methods are
  the two the routes name. The route \<open>/hash_password/<pwd>\<close> is left out: its reply
  depends on the random salt and on the bcrypt function, neither of which is in the
  source.
\<close>

datatype http_method = GET | POST

datatype target = Index | Update nat | Delete nat | Search | Unmatched

record postdata =
  fname_key :: "string option"
  lname_key :: "string option"
  email_key :: "string option"

record request =
  http_method :: http_method
  target :: target
  csrf_valid :: bool
  posted :: postdata
  args_email :: "string option"

text \<open>
  What a template receives of the form: per field the data shown (\<open>None\<close> for a field
  with no data) and its errors.
\<close>

record field_view =
  data :: "string option"
  errors :: "message list"

record form_view =
  fname_view :: field_view
  lname_view :: field_view
  email_view :: field_view

datatype response =
    Redirect string
  | Index_page form_view "student list"
  | Update_page form_view student
  | Json_result "student list"
  | Not_found_page
  | Internal_error_page
  | Bad_request
  | Method_not_allowed
  | Debugger_page exn

type_synonym notice = "(string \<times> string) option"

type_synonym reply = "response \<times> notice"

text \<open>
  The environment of the application: the email check, whether Flask runs in debug
  mode, whether the database accepts the commit of this request, and whether \<open>dict\<close>
  accepts a row of a query result. The source pins no version of SQLAlchemy: the rows
  of its releases 1.x are mappings, and \<open>dict\<close> of a \<open>Row\<close> of its releases 2.x raises
  \<open>TypeError\<close>.
\<close>

record env =
  email_ok :: "string \<Rightarrow> bool"
  debug :: bool
  commit_ok :: bool
  row_is_mapping :: bool

section \<open>The views\<close>

text \<open>
  The data of one field of a \<open>StudentForm\<close> bound to a POST: WTForms takes the value of
  the object the form was built from, if any (\<open>obj=student\<close>), and overwrites it with the
  posted value when the body has the field's key. A field left with no data holds
  \<open>None\<close>, which \<open>DataRequired\<close>, the first validator of every field, rejects as it
  rejects the empty string: here it holds the empty string.
\<close>

definition field_value :: "string option \<Rightarrow> string option \<Rightarrow> string" where
  "field_value obj_value posted_value =
     (case posted_value of
        Some v \<Rightarrow> v
      | None \<Rightarrow> (case obj_value of Some v \<Rightarrow> v | None \<Rightarrow> []))"

definition form_data :: "request \<Rightarrow> student option \<Rightarrow> formdata" where
  "form_data req obj =
     \<lparr>fname_field = field_value (map_option fname obj) (fname_key (posted req)),
      lname_field = field_value (map_option lname obj) (lname_key (posted req)),
      email_field = field_value (map_option email obj) (email_key (posted req))\<rparr>"

text \<open>\<open>StudentForm()\<close> with no object, as \<open>index\<close> builds it.\<close>

definition form :: "request \<Rightarrow> formdata" where
  "form req = form_data req None"

text \<open>
  \<open>validate_on_submit\<close>: the request is a submission (a POST) and the form validates;
  the form's own CSRF field accepts the token that \<open>CSRFProtect\<close> accepted.
\<close>

definition validate_on_submit :: "env \<Rightarrow> request \<Rightarrow> formdata \<Rightarrow> bool" where
  "validate_on_submit e req fd =
     (http_method req = POST \<and> csrf_valid req \<and> validate (email_ok e) fd)"

text \<open>
  The form as rendered: bound to the body with the errors of validation when the
  request is a POST, and otherwise showing the object it was built from. A bound field
  shows the posted value, or the object's value when the body has no such key.
\<close>

definition unbound_view :: "student option \<Rightarrow> form_view" where
  "unbound_view obj =
     \<lparr>fname_view = \<lparr>data = map_option fname obj, errors = []\<rparr>,
      lname_view = \<lparr>data = map_option lname obj, errors = []\<rparr>,
      email_view = \<lparr>data = map_option email obj, errors = []\<rparr>\<rparr>"

definition shown :: "string option \<Rightarrow> string option \<Rightarrow> string option" where
  "shown obj_value posted_value =
     (case posted_value of Some v \<Rightarrow> Some v | None \<Rightarrow> obj_value)"

definition bound_view :: "env \<Rightarrow> request \<Rightarrow> student option \<Rightarrow> form_view" where
  "bound_view e req obj =
     \<lparr>fname_view = \<lparr>data = shown (map_option fname obj) (fname_key (posted req)),
                    errors = fname_errors (form_data req obj)\<rparr>,
      lname_view = \<lparr>data = shown (map_option lname obj) (lname_key (posted req)),
                    errors = lname_errors (form_data req obj)\<rparr>,
      email_view = \<lparr>data = shown (map_option email obj) (email_key (posted req)),
                    errors = email_errors (email_ok e) (form_data req obj)\<rparr>\<rparr>"

definition StudentForm :: "env \<Rightarrow> request \<Rightarrow> student option \<Rightarrow> form_view" where
  "StudentForm e req obj =
     (if http_method req = POST then bound_view e req obj else unbound_view obj)"

text \<open>A view returns the session with its reply, or raises with the session as it left it.\<close>

type_synonym view_result = "(exn \<times> session) + (session \<times> reply)"

definition index :: "env \<Rightarrow> session \<Rightarrow> request \<Rightarrow> view_result" where
  "index e s req =
     (if validate_on_submit e req (form req) then
        (let new_student =
               \<lparr>id_col = next_id (pending s),
                fname = strip (fname_field (form req)),
                lname = strip (lname_field (form req)),
                email = strip (email_field (form req))\<rparr>;
             s1 = add new_student s
         in case commit (commit_ok e) s1 of
              Inl x \<Rightarrow> Inl (x, s1)
            | Inr s2 \<Rightarrow>
                Inr (s2, Redirect ''/'',
                     Some (''Student added successfully and securely!'', ''success'')))
      else Inr (s, Index_page (StudentForm e req None) (pending s), None))"

definition update :: "env \<Rightarrow> session \<Rightarrow> nat \<Rightarrow> request \<Rightarrow> view_result" where
  "update e s i req =
     (case get s (int i) of
        Inl x \<Rightarrow> Inl (x, s)
      | Inr None \<Rightarrow> Inr (s, Not_found_page, None)
      | Inr (Some student) \<Rightarrow>
          (let fd = form_data req (Some student)
           in if validate_on_submit e req fd then
                (let s1 = assign (int i)
                            (strip (fname_field fd))
                            (strip (lname_field fd))
                            (strip (email_field fd)) s
                 in case commit (commit_ok e) s1 of
                      Inl x \<Rightarrow> Inl (x, s1)
                    | Inr s2 \<Rightarrow>
                        Inr (s2, Redirect ''/'', Some (''Record updated securely!'', ''info'')))
              else Inr (s, Update_page (StudentForm e req (Some student)) student, None)))"

definition delete :: "env \<Rightarrow> session \<Rightarrow> nat \<Rightarrow> view_result" where
  "delete e s i =
     (case get s (int i) of
        Inl x \<Rightarrow> Inl (x, s)
      | Inr None \<Rightarrow> Inr (s, Not_found_page, None)
      | Inr (Some student) \<Rightarrow>
          (let s1 = delete_row (int i) s
           in case commit (commit_ok e) s1 of
                Inl x \<Rightarrow> Inl (x, s1)
              | Inr s2 \<Rightarrow> Inr (s2, Redirect ''/'', Some (''Student deleted securely!'', ''danger''))))"

text \<open>
  \<open>[dict(r) for r in result]\<close>: \<open>dict\<close> is called on each row in turn, and the first
  call that raises ends the request. An empty result calls it on nothing.
\<close>

definition dict_row :: "env \<Rightarrow> student \<Rightarrow> exn + student" where
  "dict_row e r = (if row_is_mapping e then Inr r else Inl TypeError)"

fun dict_rows :: "env \<Rightarrow> student list \<Rightarrow> exn + student list" where
  "dict_rows e [] = Inr []"
| "dict_rows e (r # rs) =
     (case dict_row e r of
        Inl x \<Rightarrow> Inl x
      | Inr d \<Rightarrow> (case dict_rows e rs of Inl x \<Rightarrow> Inl x | Inr ds \<Rightarrow> Inr (d # ds)))"

text \<open>
  \<open>search\<close>: \<open>request.args.get('email', '')\<close> is the empty string for an absent argument,
  and the query runs only for a non-empty value.
\<close>

definition search :: "env \<Rightarrow> session \<Rightarrow> request \<Rightarrow> view_result" where
  "search e s req =
     (let email_arg = (case args_email req of None \<Rightarrow> [] | Some v \<Rightarrow> v)
      in if email_arg \<noteq> [] then
           (case dict_rows e (select_by_email s email_arg) of
              Inl x \<Rightarrow> Inl (x, s)
            | Inr result \<Rightarrow> Inr (s, Json_result result, None))
         else Inr (s, Json_result [], None))"

section \<open>The application\<close>

text \<open>
  The handler of status 500 rolls the session back and renders \<open>500.html\<close> with no
  argument. Flask calls it for an exception a view raised unless it runs in debug mode,
  where the exception propagates to the debugger, which shows it.
\<close>

definition internal_error :: "session \<Rightarrow> session \<times> response" where
  "internal_error s = (rollback s, Internal_error_page)"

definition handle_exception :: "env \<Rightarrow> session \<Rightarrow> exn \<Rightarrow> session \<times> response" where
  "handle_exception e s x = (if debug e then (s, Debugger_page x) else internal_error s)"

text \<open>
  The methods of each route: \<open>methods=['GET', 'POST']\<close> where the decorator says so,
  and GET alone where it names none.
\<close>

fun methods :: "target \<Rightarrow> http_method list" where
  "methods Index = [GET, POST]"
| "methods (Update i) = [GET, POST]"
| "methods (Delete i) = [GET]"
| "methods Search = [GET]"
| "methods Unmatched = []"

fun dispatch :: "env \<Rightarrow> session \<Rightarrow> request \<Rightarrow> view_result" where
  "dispatch e s req =
     (case target req of
        Index \<Rightarrow> index e s req
      | Update i \<Rightarrow> update e s i req
      | Delete i \<Rightarrow> delete e s i
      | Search \<Rightarrow> search e s req
      | Unmatched \<Rightarrow> Inr (s, Not_found_page, None))"

text \<open>
  One request against the table \<open>rows\<close>: routing (404 for no route, 405 for a method
  the route does not take), then the check of \<open>CSRFProtect\<close> on a POST (400), then the
  view, and the handling of what it raised. The result is the table afterwards and the
  reply.
\<close>

definition app :: "env \<Rightarrow> student list \<Rightarrow> request \<Rightarrow> student list \<times> reply" where
  "app e rows req =
     (if target req = Unmatched then (rows, Not_found_page, None)
      else if http_method req \<notin> set (methods (target req)) then (rows, Method_not_allowed, None)
      else if http_method req = POST \<and> \<not> csrf_valid req then (rows, Bad_request, None)
      else case dispatch e (begin_session rows) req of
             Inr (s, r) \<Rightarrow> (committed s, r)
           | Inl (x, s) \<Rightarrow>
               (let (s', page) = handle_exception e s x in (committed s', page, None)))"

text \<open>The configuration of the \<open>__main__\<close> block: \<open>app.run(debug=True)\<close>.\<close>

definition main_debug :: bool where
  "main_debug = True"

section \<open>Reference definitions and sample data\<close>

text \<open>
  Modelled from the spec: the email check of the \<open>email_validator\<close> package, which the
  source calls and does not contain. The specification describes the accepted shape as
  a local part, \<open>@\<close>, and a domain with at least one dot. The theorems below hold for
  every email check; this one stands in for it where a concrete request is evaluated.
\<close>

definition email_shape :: "string \<Rightarrow> bool" where
  "email_shape s =
     (let local_part = takeWhile (\<lambda>c. c \<noteq> CHR ''@'') s;
          domain = drop (Suc (length local_part)) s
      in local_part \<noteq> [] \<and> length local_part < length s \<and> CHR ''@'' \<notin> set domain \<and>
         CHR ''.'' \<in> set domain \<and> \<not> list_ex isspace s)"

text \<open>
  The rule of the specification for a name, in its words: non-empty, 2 to 50
  characters, letters and spaces only. It is compared with what the validators accept.
\<close>

definition spec_name_rule :: "string \<Rightarrow> bool" where
  "spec_name_rule s = (s \<noteq> [] \<and> 2 \<le> length s \<and> length s \<le> 50 \<and> list_all name_char s)"

text \<open>
  The rule of the specification is broken, and the code accepts the name all the same,
  by exactly the names \<open>newline_accepted\<close> describes: letters and spaces, at least one of
  them not a space, followed by one newline, 2 to 50 characters in all.
\<close>

definition newline_accepted :: "string \<Rightarrow> bool" where
  "newline_accepted s =
     (s \<noteq> [] \<and> last s = CHR 0x0A \<and> list_all name_char (butlast s) \<and>
      strip s \<noteq> [] \<and> length s \<le> 50)"

text \<open>
  An environment where the database commits, Flask does not run in debug mode and the
  rows of a result are those of SQLAlchemy 2.x; a POST with a key for some fields, the
  request a submitted form makes (a key for every field), a GET request, and rows of
  the table.
\<close>

definition env0 :: env where
  "env0 = \<lparr>email_ok = email_shape, debug = False, commit_ok = True, row_is_mapping = False\<rparr>"

definition post_keys ::
  "target \<Rightarrow> bool \<Rightarrow> string option \<Rightarrow> string option \<Rightarrow> string option \<Rightarrow> request" where
  "post_keys t tok a b c =
     \<lparr>http_method = POST, target = t, csrf_valid = tok,
      posted = \<lparr>fname_key = a, lname_key = b, email_key = c\<rparr>, args_email = None\<rparr>"

definition post_form :: "target \<Rightarrow> bool \<Rightarrow> string \<Rightarrow> string \<Rightarrow> string \<Rightarrow> request" where
  "post_form t tok a b c = post_keys t tok (Some a) (Some b) (Some c)"

definition get_request :: "target \<Rightarrow> string option \<Rightarrow> request" where
  "get_request t q =
     \<lparr>http_method = GET, target = t, csrf_valid = False,
      posted = \<lparr>fname_key = None, lname_key = None, email_key = None\<rparr>, args_email = q\<rparr>"

definition ann :: student where
  "ann = \<lparr>id_col = 1, fname = ''Ann'', lname = ''Lee'', email = ''foo@example.com''\<rparr>"

definition bob :: student where
  "bob = \<lparr>id_col = 2, fname = ''Bob'', lname = ''Ray'', email = ''bob@x.com''\<rparr>"

definition blank_email_row :: student where
  "blank_email_row = \<lparr>id_col = 1, fname = ''Ann'', lname = ''Lee'', email = []\<rparr>"

lemmas eval_defs =
  env0_def post_keys_def post_form_def get_request_def form_def form_data_def field_value_def
  shown_def dict_row_def newline_accepted_def app_def index_def update_def delete_def search_def
  validate_on_submit_def validate_def fname_errors_def lname_errors_def email_errors_def
  fname_validators_def lname_validators_def email_validators_def DataRequired_def Length_def
  Regexp_name_def Email_def name_regex_match_def name_char_def strip_def lstrip_def rstrip_def
  isspace_def email_shape_def begin_session_def add_def assign_def delete_row_def commit_def
  rollback_def get_def lookup_def max_rowid_def select_by_email_def next_id_def
  StudentForm_def bound_view_def
  unbound_view_def handle_exception_def internal_error_def Let_def

section \<open>Facts about stripping and validation\<close>

lemma strip_Nil: "strip [] = []"
  by (simp add: strip_def lstrip_def rstrip_def)

lemma set_rstrip: "set (rstrip s) \<subseteq> set s"
proof -
  have "set (dropWhile isspace (rev s)) \<subseteq> set (rev s)"
    by (meson set_dropWhileD subsetI)
  then show ?thesis by (simp add: rstrip_def)
qed

lemma set_lstrip: "set (lstrip s) \<subseteq> set s"
  unfolding lstrip_def by (meson set_dropWhileD subsetI)

lemma set_strip: "set (strip s) \<subseteq> set s"
  unfolding strip_def using set_rstrip set_lstrip by blast

lemma length_strip: "length (strip s) \<le> length s"
proof -
  have "length (rstrip (lstrip s)) \<le> length (lstrip s)"
    unfolding rstrip_def using length_dropWhile_le [of isspace "rev (lstrip s)"] by simp
  also have "\<dots> \<le> length s"
    unfolding lstrip_def by (rule length_dropWhile_le)
  finally show ?thesis by (simp add: strip_def)
qed

lemma rstrip_snoc: "isspace c \<Longrightarrow> rstrip (p @ [c]) = rstrip p"
  by (simp add: rstrip_def)

lemma lstrip_snoc:
  "lstrip (p @ [c]) = (if lstrip p = [] then lstrip [c] else lstrip p @ [c])"
  unfolding lstrip_def by (induction p) auto

text \<open>A whitespace character at the end of a string does not survive \<open>strip\<close>.\<close>

lemma strip_snoc: "isspace c \<Longrightarrow> strip (p @ [c]) = strip p"
  by (simp add: strip_def lstrip_snoc rstrip_snoc) (simp add: lstrip_def rstrip_def)

lemma isspace_newline: "isspace (CHR 0x0A)"
  by (simp add: isspace_def)

lemma name_chars_strip: "list_all name_char s \<Longrightarrow> list_all name_char (strip s)"
  using set_strip [of s] by (auto simp: list_all_iff)

text \<open>
  What the regular expression accepts holds letters and spaces only once it is
  stripped: the newline that \<open>$\<close> tolerates at the end is whitespace.
\<close>

lemma name_regex_strip:
  assumes "name_regex_match s"
  shows "list_all name_char (strip s)"
proof (cases "list_all name_char s")
  case True
  then show ?thesis by (rule name_chars_strip)
next
  case False
  with assms have ne: "s \<noteq> []" and nl: "last s = CHR 0x0A"
    and body: "list_all name_char (butlast s)"
    by (auto simp: name_regex_match_def)
  from ne nl have "s = butlast s @ [CHR 0x0A]"
    by (metis append_butlast_last_id)
  then have "strip s = strip (butlast s)"
    using strip_snoc [OF isspace_newline, of "butlast s"] by simp
  with body show ?thesis by (simp add: name_chars_strip)
qed

lemma name_chain_Nil_iff:
  "run_validation_chain [DataRequired, Length 2 50, Regexp_name m] s [] = [] \<longleftrightarrow>
     strip s \<noteq> [] \<and> 2 \<le> length s \<and> length s \<le> 50 \<and> name_regex_match s"
  by (auto simp: DataRequired_def Length_def Regexp_name_def strip_Nil)

lemma fname_errors_Nil_iff:
  "fname_errors fd = [] \<longleftrightarrow>
     strip (fname_field fd) \<noteq> [] \<and> 2 \<le> length (fname_field fd) \<and>
     length (fname_field fd) \<le> 50 \<and> name_regex_match (fname_field fd)"
  unfolding fname_errors_def fname_validators_def by (rule name_chain_Nil_iff)

lemma lname_errors_Nil_iff:
  "lname_errors fd = [] \<longleftrightarrow>
     strip (lname_field fd) \<noteq> [] \<and> 2 \<le> length (lname_field fd) \<and>
     length (lname_field fd) \<le> 50 \<and> name_regex_match (lname_field fd)"
  unfolding lname_errors_def lname_validators_def by (rule name_chain_Nil_iff)

lemma email_errors_Nil_iff:
  "email_errors ev fd = [] \<longleftrightarrow> strip (email_field fd) \<noteq> [] \<and> ev (email_field fd)"
  by (auto simp: email_errors_def email_validators_def DataRequired_def Email_def strip_Nil)

lemma validate_iff:
  "validate ev fd \<longleftrightarrow>
     (strip (fname_field fd) \<noteq> [] \<and> 2 \<le> length (fname_field fd) \<and>
      length (fname_field fd) \<le> 50 \<and> name_regex_match (fname_field fd)) \<and>
     (strip (lname_field fd) \<noteq> [] \<and> 2 \<le> length (lname_field fd) \<and>
      length (lname_field fd) \<le> 50 \<and> name_regex_match (lname_field fd)) \<and>
     (strip (email_field fd) \<noteq> [] \<and> ev (email_field fd))"
  by (simp add: validate_def fname_errors_Nil_iff lname_errors_Nil_iff email_errors_Nil_iff)

section \<open>Facts about the store\<close>

lemma committed_begin_session [simp]: "committed (begin_session rows) = rows"
  by (simp add: begin_session_def)

lemma pending_begin_session [simp]: "pending (begin_session rows) = rows"
  by (simp add: begin_session_def)

lemma fold_max_ge: "(a::int) \<le> fold max xs a"
  by (induction xs arbitrary: a) (auto intro: order_trans [OF max.cobounded2])

lemma fold_max_mem: "(x::int) \<in> set xs \<Longrightarrow> x \<le> fold max xs a"
proof (induction xs arbitrary: a)
  case Nil
  then show ?case by simp
next
  case (Cons y ys)
  show ?case
  proof (cases "x = y")
    case True
    have "y \<le> max y a" by simp
    also have "\<dots> \<le> fold max ys (max y a)" by (rule fold_max_ge)
    finally show ?thesis using True by simp
  next
    case False
    with Cons.prems have "x \<in> set ys" by simp
    then show ?thesis using Cons.IH by simp
  qed
qed

text \<open>The id of a new row is larger than every id in the table.\<close>

lemma next_id_above: "r \<in> set rows \<Longrightarrow> id_col r < next_id rows"
proof (cases rows)
  case Nil
  assume "r \<in> set rows"
  with Nil show ?thesis by simp
next
  case (Cons a as)
  assume "r \<in> set rows"
  with Cons have "r = a \<or> id_col r \<in> set (map id_col as)" by auto
  then have "id_col r \<le> fold max (map id_col as) (id_col a)"
    using fold_max_ge [of "id_col a" "map id_col as"]
      fold_max_mem [of "id_col r" "map id_col as" "id_col a"]
    by auto
  with Cons show ?thesis by (simp add: next_id_def)
qed

lemma find_fresh_append:
  assumes "\<forall>r\<in>set rows. \<not> P r" and "P x"
  shows "find P (rows @ [x]) = Some x"
  using assms by (induction rows) auto

lemma lookup_after_add:
  "lookup (rows @ [r\<lparr>id_col := next_id rows\<rparr>]) (next_id rows) =
     Some (r\<lparr>id_col := next_id rows\<rparr>)"
proof -
  have "\<forall>x\<in>set rows. \<not> id_col x = next_id rows"
    using next_id_above by fastforce
  then show ?thesis
    by (simp add: lookup_def find_fresh_append)
qed

lemma lookup_filter_None: "lookup (filter (\<lambda>r. id_col r \<noteq> k) rows) k = None"
  unfolding lookup_def by (induction rows) auto

lemma get_in_range: "i \<le> max_rowid \<Longrightarrow> get s i = Inr (lookup (pending s) i)"
  by (simp add: get_def)

lemma get_overflow: "max_rowid < i \<Longrightarrow> get s i = Inl OverflowError"
  by (simp add: get_def)

section \<open>What each route does\<close>

lemma dict_rows_eq:
  "dict_rows e rs = (if rs = [] \<or> row_is_mapping e then Inr rs else Inl TypeError)"
  by (induction rs) (auto simp: dict_row_def)

lemma app_search:
  assumes "target req = Search" and "http_method req = GET"
  shows "app e rows req =
     (case args_email req of
        None \<Rightarrow> (rows, Json_result [], None)
      | Some q \<Rightarrow>
          if q = [] \<or> filter (\<lambda>r. email r = q) rows = [] then (rows, Json_result [], None)
          else if row_is_mapping e then
            (rows, Json_result (filter (\<lambda>r. email r = q) rows), None)
          else (rows, if debug e then Debugger_page TypeError else Internal_error_page, None))"
  using assms
  by (simp add: app_def search_def select_by_email_def dict_rows_eq handle_exception_def
      internal_error_def rollback_def Let_def split: option.splits)

text \<open>
  The data of a bound field: the posted value when the body has the key, and the value
  of the record the form was built from when it has not.
\<close>

lemma form_present:
  "fname_key (posted req) = Some a \<Longrightarrow> fname_field (form_data req obj) = a"
  "lname_key (posted req) = Some b \<Longrightarrow> lname_field (form_data req obj) = b"
  "email_key (posted req) = Some c \<Longrightarrow> email_field (form_data req obj) = c"
  by (simp_all add: form_data_def field_value_def)

lemma form_absent:
  "fname_key (posted req) = None \<Longrightarrow> fname_field (form_data req (Some r)) = fname r"
  "lname_key (posted req) = None \<Longrightarrow> lname_field (form_data req (Some r)) = lname r"
  "email_key (posted req) = None \<Longrightarrow> email_field (form_data req (Some r)) = email r"
  by (simp_all add: form_data_def field_value_def)

text \<open>\<open>CSRFProtect\<close> answers a POST without a valid token before the view runs.\<close>

lemma app_post_without_token:
  assumes "http_method req = POST" and "target req = Index \<or> target req = Update i"
    and "\<not> csrf_valid req"
  shows "app e rows req = (rows, Bad_request, None)"
  using assms by (auto simp: app_def)

lemma app_index_post:
  assumes "http_method req = POST" and "target req = Index" and "csrf_valid req"
  shows "app e rows req =
     (if validate (email_ok e) (form req) then
        if commit_ok e then
          (rows @ [\<lparr>id_col = next_id rows,
                     fname = strip (fname_field (form req)),
                     lname = strip (lname_field (form req)),
                     email = strip (email_field (form req))\<rparr>],
           Redirect ''/'', Some (''Student added successfully and securely!'', ''success''))
        else (rows, if debug e then Debugger_page StoreError else Internal_error_page, None)
      else (rows, Index_page (bound_view e req None) rows, None))"
  using assms
  by (simp add: app_def index_def validate_on_submit_def add_def commit_def
      handle_exception_def internal_error_def rollback_def StudentForm_def Let_def)

lemma app_index_get:
  assumes "http_method req = GET" and "target req = Index"
  shows "app e rows req = (rows, Index_page (unbound_view None) rows, None)"
  using assms
  by (simp add: app_def index_def validate_on_submit_def StudentForm_def)

lemma app_delete_get:
  assumes "target req = Delete i" and "http_method req = GET" and "int i \<le> max_rowid"
  shows "app e rows req =
     (case lookup rows (int i) of
        None \<Rightarrow> (rows, Not_found_page, None)
      | Some r \<Rightarrow>
          if commit_ok e then
            (filter (\<lambda>r. id_col r \<noteq> int i) rows, Redirect ''/'',
             Some (''Student deleted securely!'', ''danger''))
          else (rows, if debug e then Debugger_page StoreError else Internal_error_page, None))"
  using assms
  by (simp add: app_def delete_def delete_row_def commit_def get_in_range
      handle_exception_def internal_error_def rollback_def Let_def split: option.splits)

text \<open>An id of the path beyond 64 bits makes the lookup raise, in both views that look up.\<close>

lemma app_delete_overflow:
  assumes "target req = Delete i" and "http_method req = GET" and "max_rowid < int i"
  shows "app e rows req =
           (rows, if debug e then Debugger_page OverflowError else Internal_error_page, None)"
  using assms
  by (simp add: app_def delete_def get_overflow handle_exception_def internal_error_def
      rollback_def)

lemma app_update_overflow:
  assumes "target req = Update i" and "max_rowid < int i"
  shows "app e rows req =
           (rows,
            if http_method req = POST \<and> \<not> csrf_valid req then Bad_request
            else if debug e then Debugger_page OverflowError else Internal_error_page,
            None)"
proof (cases "http_method req")
  case GET
  with assms show ?thesis
    by (simp add: app_def update_def get_overflow handle_exception_def internal_error_def
        rollback_def)
next
  case POST
  with assms show ?thesis
    by (simp add: app_def update_def get_overflow handle_exception_def internal_error_def
        rollback_def)
qed

text \<open>The view itself answers a missing id with the not-found page, whatever the method.\<close>

lemma update_missing_view:
  "get s (int i) = Inr None \<Longrightarrow> update e s i req = Inr (s, Not_found_page, None)"
  by (simp add: update_def)

lemma app_update_missing:
  assumes "target req = Update i" and "int i \<le> max_rowid" and "lookup rows (int i) = None"
  shows "app e rows req =
           (rows,
            if http_method req = POST \<and> \<not> csrf_valid req then Bad_request else Not_found_page,
            None)"
proof (cases "http_method req")
  case GET
  with assms show ?thesis by (simp add: app_def update_def get_in_range)
next
  case POST
  with assms show ?thesis by (simp add: app_def update_def get_in_range)
qed

lemma app_update_found:
  assumes "target req = Update i" and "int i \<le> max_rowid" and "lookup rows (int i) = Some old"
  shows "app e rows req =
     (if http_method req = POST \<and> \<not> csrf_valid req then (rows, Bad_request, None)
      else if http_method req = POST \<and> validate (email_ok e) (form_data req (Some old)) then
        if commit_ok e then
          (map (\<lambda>r. if id_col r = int i
                     then r\<lparr>fname := strip (fname_field (form_data req (Some old))),
                            lname := strip (lname_field (form_data req (Some old))),
                            email := strip (email_field (form_data req (Some old)))\<rparr>
                     else r) rows,
           Redirect ''/'', Some (''Record updated securely!'', ''info''))
        else (rows, if debug e then Debugger_page StoreError else Internal_error_page, None)
      else (rows, Update_page (StudentForm e req (Some old)) old, None))"
proof (cases "http_method req")
  case GET
  with assms show ?thesis
    by (simp add: app_def update_def validate_on_submit_def get_in_range Let_def)
next
  case POST
  with assms show ?thesis
    by (simp add: app_def update_def validate_on_submit_def assign_def commit_def get_in_range
        handle_exception_def internal_error_def rollback_def Let_def)
qed

text \<open>
  A request that is answered with the page of status 500 or with the debugger's page
  leaves the table as it was.
\<close>

lemma failed_request_keeps_rows:
  assumes "fst (snd (app e rows req)) = Internal_error_page \<or>
           fst (snd (app e rows req)) = Debugger_page x"
  shows "fst (app e rows req) = rows"
proof (cases "target req")
  case Index
  show ?thesis
  proof (cases "http_method req")
    case GET
    with Index show ?thesis by (simp add: app_index_get)
  next
    case POST
    show ?thesis
    proof (cases "csrf_valid req")
      case True
      with Index POST assms show ?thesis
        by (auto simp: app_index_post split: if_splits)
    next
      case False
      with Index POST show ?thesis by (simp add: app_def)
    qed
  qed
next
  case (Update i)
  show ?thesis
  proof (cases "int i \<le> max_rowid")
    case False
    with Update show ?thesis by (simp add: app_update_overflow)
  next
    case True
    show ?thesis
    proof (cases "lookup rows (int i)")
      case None
      with Update True show ?thesis by (simp add: app_update_missing)
    next
      case (Some old)
      with Update True assms show ?thesis
        by (auto simp: app_update_found split: if_splits)
    qed
  qed
next
  case (Delete i)
  show ?thesis
  proof (cases "http_method req")
    case POST
    with Delete show ?thesis by (simp add: app_def)
  next
    case GET
    show ?thesis
    proof (cases "int i \<le> max_rowid")
      case False
      with Delete GET show ?thesis by (simp add: app_delete_overflow)
    next
      case True
      with Delete GET assms show ?thesis
        by (auto simp: app_delete_get split: option.splits if_splits)
    qed
  qed
next
  case Search
  then show ?thesis
    using app_search [of req e rows]
    by (cases "http_method req") (auto simp: app_def split: option.splits if_splits)
next
  case Unmatched
  then show ?thesis by (simp add: app_def)
qed

text \<open>The handler of status 500 discards what the session holds and shows a fixed page.\<close>

lemma internal_error_rolls_back:
  "internal_error s = (s', page) \<Longrightarrow>
     pending s' = committed s \<and> committed s' = committed s \<and> page = Internal_error_page"
  by (auto simp: internal_error_def rollback_def)

text \<open>
  The row a successful creation stores: the names hold letters and spaces only and
  have between 1 and 50 characters, and the email is the stripped form of a value the
  email check accepted.
\<close>

lemma created_row_fields:
  assumes "http_method req = POST" and "target req = Index"
    and "app e rows req = (rows', Redirect loc, n)"
  shows "\<exists>r. rows' = rows @ [r] \<and> id_col r = next_id rows \<and>
           list_all name_char (fname r) \<and> 1 \<le> length (fname r) \<and> length (fname r) \<le> 50 \<and>
           list_all name_char (lname r) \<and> 1 \<le> length (lname r) \<and> length (lname r) \<le> 50 \<and>
           email r = strip (email_field (form req)) \<and> email_ok e (email_field (form req))"
proof -
  let ?r = "\<lparr>id_col = next_id rows,
             fname = strip (fname_field (form req)),
             lname = strip (lname_field (form req)),
             email = strip (email_field (form req))\<rparr>"
  have tok: "csrf_valid req"
    using assms by (auto simp: app_def split: if_splits)
  have "(rows', Redirect loc, n) =
     (if validate (email_ok e) (form req) then
        if commit_ok e then
          (rows @ [?r], Redirect ''/'',
           Some (''Student added successfully and securely!'', ''success''))
        else (rows, if debug e then Debugger_page StoreError else Internal_error_page, None)
      else (rows, Index_page (bound_view e req None) rows, None))"
    using app_index_post [OF assms(1,2) tok, of e rows] assms(3) by simp
  then have v: "validate (email_ok e) (form req)" and rows': "rows' = rows @ [?r]"
    by (auto split: if_splits)
  from v have f: "list_all name_char (fname ?r)" and l: "list_all name_char (lname ?r)"
    and fne: "fname ?r \<noteq> []" and lne: "lname ?r \<noteq> []"
    and fle: "length (fname_field (form req)) \<le> 50" and lle: "length (lname_field (form req)) \<le> 50"
    and em: "email_ok e (email_field (form req))"
    by (simp_all add: validate_iff name_regex_strip)
  have f50: "length (fname ?r) \<le> 50"
    using length_strip [of "fname_field (form req)"] fle by simp
  have l50: "length (lname ?r) \<le> 50"
    using length_strip [of "lname_field (form req)"] lle by simp
  have f1: "1 \<le> length (fname ?r)" using fne by (cases "fname ?r") simp_all
  have l1: "1 \<le> length (lname ?r)" using lne by (cases "lname ?r") simp_all
  show ?thesis
    using rows' f l f1 l1 f50 l50 em by (intro exI [of _ ?r]) simp
qed

text \<open>
  No request stores a blank email: if no row of the table has one before a request,
  none has one after it.
\<close>

lemma app_keeps_nonblank_email:
  assumes "\<forall>r\<in>set rows. email r \<noteq> []"
  shows "\<forall>r\<in>set (fst (app e rows req)). email r \<noteq> []"
proof (cases "fst (app e rows req) = rows")
  case True
  with assms show ?thesis by simp
next
  case changed: False
  show ?thesis
  proof (cases "target req")
    case Index
    show ?thesis
    proof (cases "http_method req")
      case GET
      with Index changed show ?thesis by (simp add: app_index_get)
    next
      case POST
      show ?thesis
      proof (cases "csrf_valid req")
        case False
        with Index POST changed show ?thesis by (simp add: app_def)
      next
        case True
        with Index POST changed assms show ?thesis
          by (auto simp: app_index_post validate_iff split: if_splits)
      qed
    qed
  next
    case (Update i)
    show ?thesis
    proof (cases "int i \<le> max_rowid")
      case False
      with Update changed show ?thesis by (simp add: app_update_overflow)
    next
      case True
      show ?thesis
      proof (cases "lookup rows (int i)")
        case None
        with Update True changed show ?thesis by (simp add: app_update_missing)
      next
        case (Some old)
        with Update True changed assms show ?thesis
          by (auto simp: app_update_found validate_iff split: if_splits)
      qed
    qed
  next
    case (Delete i)
    show ?thesis
    proof (cases "http_method req")
      case POST
      with Delete changed show ?thesis by (simp add: app_def)
    next
      case GET
      show ?thesis
      proof (cases "int i \<le> max_rowid")
        case False
        with Delete GET changed show ?thesis by (simp add: app_delete_overflow)
      next
        case True
        with Delete GET changed assms show ?thesis
          by (auto simp: app_delete_get split: option.splits if_splits)
      qed
    qed
  next
    case Search
    with changed show ?thesis
      using app_search [of req e rows]
      by (cases "http_method req") (auto simp: app_def split: option.splits if_splits)
  next
    case Unmatched
    with changed show ?thesis by (simp add: app_def)
  qed
qed

text \<open>
  Where \<open>dict\<close> accepts a row and no row has a blank email, a search returns exactly the
  rows whose email is the argument, for every string.
\<close>

lemma search_exact_with_mapping_rows:
  assumes "target req = Search" and "http_method req = GET" and "args_email req = Some q"
    and "row_is_mapping e" and "\<forall>r\<in>set rows. email r \<noteq> []"
  shows "app e rows req = (rows, Json_result (filter (\<lambda>r. email r = q) rows), None)"
proof -
  have "q = [] \<Longrightarrow> filter (\<lambda>r. email r = q) rows = []"
    using assms(5) by (auto simp: filter_empty_conv)
  then show ?thesis
    using assms(1-4) by (auto simp: app_search)
qed

text \<open>
  A name that breaks the rule of the specification and is not one of the names with a
  final newline that the code accepts has an error recorded by the validators.
\<close>

lemma broken_name_has_error:
  assumes "\<not> spec_name_rule s" and "\<not> newline_accepted s"
  shows "run_validation_chain [DataRequired, Length 2 50, Regexp_name m] s [] \<noteq> []"
proof
  assume "run_validation_chain [DataRequired, Length 2 50, Regexp_name m] s [] = []"
  then have "strip s \<noteq> [] \<and> 2 \<le> length s \<and> length s \<le> 50 \<and> name_regex_match s"
    using name_chain_Nil_iff [of m s] by blast
  then have ok: "strip s \<noteq> []" "2 \<le> length s" "length s \<le> 50" "name_regex_match s"
    by simp_all
  from ok(2) have ne: "s \<noteq> []" by auto
  with assms(1) ok(2,3) have "\<not> list_all name_char s"
    by (simp add: spec_name_rule_def)
  with ok(4) have "last s = CHR 0x0A" and "list_all name_char (butlast s)"
    by (auto simp: name_regex_match_def)
  with ne ok(1,3) have "newline_accepted s"
    by (simp add: newline_accepted_def)
  with assms(2) show False by simp
qed

text \<open>
  The names of \<open>newline_accepted\<close> are exactly those that break the rule of the
  specification and pass the validators of a name.
\<close>

lemma not_name_char_newline: "\<not> name_char (CHR 0x0A)"
  by (simp add: name_char_def)

lemma newline_accepted_iff:
  "newline_accepted s \<longleftrightarrow>
     \<not> spec_name_rule s \<and> run_validation_chain [DataRequired, Length 2 50, Regexp_name m] s [] = []"
proof
  assume acc: "newline_accepted s"
  then have ne: "s \<noteq> []" and nl: "last s = CHR 0x0A" and body: "list_all name_char (butlast s)"
    and st: "strip s \<noteq> []" and le: "length s \<le> 50"
    by (simp_all add: newline_accepted_def)
  from ne nl have split: "s = butlast s @ [CHR 0x0A]"
    by (metis append_butlast_last_id)
  then have "strip s = strip (butlast s)"
    using strip_snoc [OF isspace_newline, of "butlast s"] by simp
  with st have "butlast s \<noteq> []"
    by (auto simp: strip_Nil)
  then have two: "2 \<le> length s"
    using ne by (cases s) (auto simp: Suc_le_eq)
  from ne nl have "CHR 0x0A \<in> set s"
    using last_in_set by metis
  then have broken: "\<not> spec_name_rule s"
    using not_name_char_newline by (auto simp: spec_name_rule_def list_all_iff)
  from ne nl body have "name_regex_match s"
    by (simp add: name_regex_match_def)
  with st two le have "run_validation_chain [DataRequired, Length 2 50, Regexp_name m] s [] = []"
    using name_chain_Nil_iff [of m s] by blast
  with broken show
    "\<not> spec_name_rule s \<and> run_validation_chain [DataRequired, Length 2 50, Regexp_name m] s [] = []"
    by simp
next
  assume "\<not> spec_name_rule s \<and>
    run_validation_chain [DataRequired, Length 2 50, Regexp_name m] s [] = []"
  then show "newline_accepted s"
    using broken_name_has_error [of s m] by blast
qed

section \<open>The claims\<close>

text \<open>
  Claim C1: every record stored by a creation has names of 2 to 50 letters and spaces
  and an email of the required shape. The validators run on the raw data and \<open>strip()\<close>
  is applied afterwards, so the length bound is checked on a string that is not the one
  stored: the first name \<open>A\<close> followed by a space passes \<open>Length(min=2)\<close> and the
  record is stored with the one-letter first name \<open>A\<close>.
\<close>

theorem C1_one_letter_name_stored:
  "app env0 [] (post_form Index True ''A '' ''Lee'' ''ann@x.com'') =
     ([\<lparr>id_col = 1, fname = ''A'', lname = ''Lee'', email = ''ann@x.com''\<rparr>], Redirect ''/'',
      Some (''Student added successfully and securely!'', ''success'')) \<and>
   length ''A'' < 2 \<and> \<not> spec_name_rule ''A''"
  by (simp add: eval_defs spec_name_rule_def)

text \<open>
  Claim C2: \<open>GET /search?email=e\<close> returns exactly the stored records whose email is
  \<open>e\<close>. The view builds its reply with \<open>dict(r)\<close> for each row of the result. With the
  rows of SQLAlchemy 2.x that call raises for the first row, so a search that matches
  a record is answered with the page of status 500 and returns no record: the record
  that a valid creation stores on an empty table is not returned by the search for its
  email. (Where \<open>dict\<close> accepts a row, lemma \<open>search_exact_with_mapping_rows\<close> gives the
  claim on every table the application can produce.)
\<close>

theorem C2_matching_search_fails:
  "app env0 [] (post_form Index True ''Ann'' ''Lee'' ''foo@example.com'') =
     ([ann], Redirect ''/'', Some (''Student added successfully and securely!'', ''success'')) \<and>
   email ann = ''foo@example.com'' \<and>
   app env0 [ann] (get_request Search (Some ''foo@example.com'')) =
     ([ann], Internal_error_page, None)"
  by (simp add: eval_defs ann_def)

text \<open>
  Claim C3, as amended: a POST to \<open>/\<close> that carries a valid CSRF token, whose names
  have 2 to 50 characters, hold letters and spaces only and are not blank, and whose
  email is not blank and passes the email check, creates a record when the database
  commits: the reply redirects to \<open>/\<close> with the success notice, the new record holds
  the stripped values under a fresh id, the listing that follows shows it, and a lookup
  of its id returns it.
\<close>

theorem C3_create_then_listed:
  assumes "http_method req = POST" and "target req = Index" and "csrf_valid req"
    and "commit_ok e"
    and "2 \<le> length (fname_field (form req))" and "length (fname_field (form req)) \<le> 50"
    and "list_all name_char (fname_field (form req))" and "strip (fname_field (form req)) \<noteq> []"
    and "2 \<le> length (lname_field (form req))" and "length (lname_field (form req)) \<le> 50"
    and "list_all name_char (lname_field (form req))" and "strip (lname_field (form req)) \<noteq> []"
    and "strip (email_field (form req)) \<noteq> []" and "email_ok e (email_field (form req))"
  shows "let new_student = \<lparr>id_col = next_id rows,
                            fname = strip (fname_field (form req)),
                            lname = strip (lname_field (form req)),
                            email = strip (email_field (form req))\<rparr>
         in app e rows req =
              (rows @ [new_student], Redirect ''/'',
               Some (''Student added successfully and securely!'', ''success'')) \<and>
            app e (rows @ [new_student]) (req\<lparr>http_method := GET\<rparr>) =
              (rows @ [new_student], Index_page (unbound_view None) (rows @ [new_student]), None) \<and>
            lookup (rows @ [new_student]) (next_id rows) = Some new_student"
proof -
  have v: "validate (email_ok e) (form req)"
    using assms by (simp add: validate_iff name_regex_match_def)
  have created: "app e rows req =
      (rows @ [\<lparr>id_col = next_id rows,
                 fname = strip (fname_field (form req)),
                 lname = strip (lname_field (form req)),
                 email = strip (email_field (form req))\<rparr>],
       Redirect ''/'', Some (''Student added successfully and securely!'', ''success''))"
    using assms(1-4) v by (simp add: app_index_post)
  have listed: "app e rows' (req\<lparr>http_method := GET\<rparr>) =
      (rows', Index_page (unbound_view None) rows', None)" for rows'
    using assms(2) by (simp add: app_index_get)
  have found: "lookup (rows @ [r\<lparr>id_col := next_id rows\<rparr>]) (next_id rows) =
      Some (r\<lparr>id_col := next_id rows\<rparr>)" for r
    by (rule lookup_after_add)
  show ?thesis
    using created listed
      found [of "\<lparr>id_col = 0, fname = strip (fname_field (form req)),
                  lname = strip (lname_field (form req)),
                  email = strip (email_field (form req))\<rparr>"]
    by (simp add: Let_def)
qed

theorem C3_create_then_listed_witness:
  "app env0 [] (post_form Index True ''  Ann '' ''Lee'' ''ann@x.com'') =
     ([\<lparr>id_col = 1, fname = ''Ann'', lname = ''Lee'', email = ''ann@x.com''\<rparr>], Redirect ''/'',
      Some (''Student added successfully and securely!'', ''success'')) \<and>
   app env0 [\<lparr>id_col = 1, fname = ''Ann'', lname = ''Lee'', email = ''ann@x.com''\<rparr>]
       ((post_form Index True ''  Ann '' ''Lee'' ''ann@x.com'')\<lparr>http_method := GET\<rparr>) =
     ([\<lparr>id_col = 1, fname = ''Ann'', lname = ''Lee'', email = ''ann@x.com''\<rparr>],
      Index_page (unbound_view None)
        [\<lparr>id_col = 1, fname = ''Ann'', lname = ''Lee'', email = ''ann@x.com''\<rparr>], None) \<and>
   lookup [\<lparr>id_col = 1, fname = ''Ann'', lname = ''Lee'', email = ''ann@x.com''\<rparr>] 1 =
     Some \<lparr>id_col = 1, fname = ''Ann'', lname = ''Lee'', email = ''ann@x.com''\<rparr>"
  using C3_create_then_listed [of "post_form Index True ''  Ann '' ''Lee'' ''ann@x.com''" env0 "[]"]
  by (simp add: post_form_def post_keys_def form_def form_data_def field_value_def env0_def
      email_shape_def name_char_def strip_def lstrip_def rstrip_def isspace_def next_id_def
      Let_def)

text \<open>
  The claim as written fails whichever string the rules are read on. Two spaces meet
  the rules for a name as the specification words them, and the submission is rejected
  as a missing field. A tab followed by \<open>Ann\<close> meets them once stripped, and the
  submission is rejected for the tab. Both submissions carry a valid CSRF token. A
  submission that meets every rule is answered with status 400 when it carries no
  valid token, and with the page of status 500 when the database refuses the commit.
\<close>

theorem C3_create_counterexample:
  "spec_name_rule ''  '' \<and> spec_name_rule ''Lee'' \<and> email_shape ''ann@x.com'' \<and>
   app env0 [] (post_form Index True ''  '' ''Lee'' ''ann@x.com'') =
     ([], Index_page
            \<lparr>fname_view = \<lparr>data = Some ''  '', errors = [Required]\<rparr>,
             lname_view = \<lparr>data = Some ''Lee'', errors = []\<rparr>,
             email_view = \<lparr>data = Some ''ann@x.com'', errors = []\<rparr>\<rparr> [], None) \<and>
   spec_name_rule (strip (CHR 0x09 # ''Ann'')) \<and>
   app env0 [] (post_form Index True (CHR 0x09 # ''Ann'') ''Lee'' ''ann@x.com'') =
     ([], Index_page
            \<lparr>fname_view = \<lparr>data = Some (CHR 0x09 # ''Ann''),
                           errors = [Custom ''Only letters allowed'']\<rparr>,
             lname_view = \<lparr>data = Some ''Lee'', errors = []\<rparr>,
             email_view = \<lparr>data = Some ''ann@x.com'', errors = []\<rparr>\<rparr> [], None) \<and>
   spec_name_rule ''Ann'' \<and>
   app env0 [] (post_form Index False ''Ann'' ''Lee'' ''ann@x.com'') = ([], Bad_request, None) \<and>
   app (env0\<lparr>commit_ok := False\<rparr>) [] (post_form Index True ''Ann'' ''Lee'' ''ann@x.com'') =
     ([], Internal_error_page, None)"
  by (simp add: eval_defs spec_name_rule_def)

text \<open>
  Claim C4, as amended: take a POST to \<open>/\<close> in which some field violates a validation
  rule: a name that is empty (or has no key in the body), has fewer than 2 or more than
  50 characters or holds a character other than a letter or a space, or an email that
  fails the email check; a name that the code accepts with a final newline is not
  counted. If the POST carries a valid CSRF token, no record is added and the reply is
  the index page with the table unchanged, where each field shows what was posted for
  it and every field that violates its rule carries an error message. If it carries no
  valid token, the reply is status 400 and the table is unchanged.
\<close>

theorem C4_invalid_submission_rejected:
  assumes "http_method req = POST" and "target req = Index"
    and "(\<not> spec_name_rule (fname_field (form req)) \<and> \<not> newline_accepted (fname_field (form req))) \<or>
         (\<not> spec_name_rule (lname_field (form req)) \<and> \<not> newline_accepted (lname_field (form req))) \<or>
         \<not> email_ok e (email_field (form req))"
  shows "if csrf_valid req then
           \<exists>v. app e rows req = (rows, Index_page v rows, None) \<and>
                data (fname_view v) = fname_key (posted req) \<and>
                data (lname_view v) = lname_key (posted req) \<and>
                data (email_view v) = email_key (posted req) \<and>
                (\<not> spec_name_rule (fname_field (form req)) \<and>
                 \<not> newline_accepted (fname_field (form req)) \<longrightarrow> errors (fname_view v) \<noteq> []) \<and>
                (\<not> spec_name_rule (lname_field (form req)) \<and>
                 \<not> newline_accepted (lname_field (form req)) \<longrightarrow> errors (lname_view v) \<noteq> []) \<and>
                (\<not> email_ok e (email_field (form req)) \<longrightarrow> errors (email_view v) \<noteq> [])
         else app e rows req = (rows, Bad_request, None)"
proof (cases "csrf_valid req")
  case False
  then show ?thesis
    using assms(1,2) app_post_without_token [of req 0 e rows] by simp
next
  case True
  let ?v = "bound_view e req None"
  have f: "\<not> spec_name_rule (fname_field (form req)) \<and>
      \<not> newline_accepted (fname_field (form req)) \<longrightarrow> fname_errors (form req) \<noteq> []"
    unfolding fname_errors_def fname_validators_def using broken_name_has_error by blast
  have l: "\<not> spec_name_rule (lname_field (form req)) \<and>
      \<not> newline_accepted (lname_field (form req)) \<longrightarrow> lname_errors (form req) \<noteq> []"
    unfolding lname_errors_def lname_validators_def using broken_name_has_error by blast
  have m: "\<not> email_ok e (email_field (form req)) \<longrightarrow>
      email_errors (email_ok e) (form req) \<noteq> []"
    by (simp add: email_errors_Nil_iff)
  from assms(3) f l m have "\<not> validate (email_ok e) (form req)"
    by (auto simp: validate_def)
  with assms(1,2) True have page: "app e rows req = (rows, Index_page ?v rows, None)"
    by (simp add: app_index_post)
  have shown: "data (fname_view ?v) = fname_key (posted req) \<and>
      data (lname_view ?v) = lname_key (posted req) \<and>
      data (email_view ?v) = email_key (posted req)"
    by (simp add: bound_view_def shown_def split: option.splits)
  have errs: "errors (fname_view ?v) = fname_errors (form req) \<and>
      errors (lname_view ?v) = lname_errors (form req) \<and>
      errors (email_view ?v) = email_errors (email_ok e) (form req)"
    by (simp add: bound_view_def form_def)
  from page shown errs f l m have
    "\<exists>v. app e rows req = (rows, Index_page v rows, None) \<and>
         data (fname_view v) = fname_key (posted req) \<and>
         data (lname_view v) = lname_key (posted req) \<and>
         data (email_view v) = email_key (posted req) \<and>
         (\<not> spec_name_rule (fname_field (form req)) \<and>
          \<not> newline_accepted (fname_field (form req)) \<longrightarrow> errors (fname_view v) \<noteq> []) \<and>
         (\<not> spec_name_rule (lname_field (form req)) \<and>
          \<not> newline_accepted (lname_field (form req)) \<longrightarrow> errors (lname_view v) \<noteq> []) \<and>
         (\<not> email_ok e (email_field (form req)) \<longrightarrow> errors (email_view v) \<noteq> [])"
    by (intro exI [of _ ?v]) simp
  with True show ?thesis by simp
qed

theorem C4_invalid_submission_rejected_witness:
  "(\<exists>v. app env0 [ann] (post_form Index True ''A1'' ''Lee'' ''not-an-email'') =
           ([ann], Index_page v [ann], None) \<and>
         data (fname_view v) = Some ''A1'' \<and> data (lname_view v) = Some ''Lee'' \<and>
         data (email_view v) = Some ''not-an-email'' \<and>
         errors (fname_view v) \<noteq> [] \<and> errors (email_view v) \<noteq> []) \<and>
   app env0 [ann] (post_form Index False ''A1'' ''Lee'' ''not-an-email'') =
     ([ann], Bad_request, None)"
proof -
  have broken: "\<not> spec_name_rule ''A1''" "\<not> newline_accepted ''A1''"
    "\<not> email_shape ''not-an-email''"
    by (simp_all add: spec_name_rule_def newline_accepted_def name_char_def email_shape_def
        isspace_def)
  have fields: "fname_field (form (post_form Index tok ''A1'' ''Lee'' ''not-an-email'')) = ''A1''"
    "email_field (form (post_form Index tok ''A1'' ''Lee'' ''not-an-email'')) = ''not-an-email''"
    for tok
    by (simp_all add: post_form_def post_keys_def form_def form_data_def field_value_def)
  have with_token:
    "\<exists>v. app env0 [ann] (post_form Index True ''A1'' ''Lee'' ''not-an-email'') =
           ([ann], Index_page v [ann], None) \<and>
         data (fname_view v) = Some ''A1'' \<and> data (lname_view v) = Some ''Lee'' \<and>
         data (email_view v) = Some ''not-an-email'' \<and>
         errors (fname_view v) \<noteq> [] \<and> errors (email_view v) \<noteq> []"
    using C4_invalid_submission_rejected
            [of "post_form Index True ''A1'' ''Lee'' ''not-an-email''" env0 "[ann]"]
      broken fields
    by (auto simp: post_form_def post_keys_def env0_def)
  have without_token:
    "app env0 [ann] (post_form Index False ''A1'' ''Lee'' ''not-an-email'') =
       ([ann], Bad_request, None)"
    using C4_invalid_submission_rejected
            [of "post_form Index False ''A1'' ''Lee'' ''not-an-email''" env0 "[ann]"]
      broken fields
    by (simp add: post_form_def post_keys_def env0_def)
  from with_token without_token show ?thesis by blast
qed

text \<open>
  The claim as written fails for a submission without a valid CSRF token: the first
  name \<open>A1\<close> breaks the rule on letters, no record is added, and the reply is the
  rejection of \<open>CSRFProtect\<close>, which names no field. It fails as well, with a valid
  token, for the first name \<open>Ann\<close> followed by a newline, which is not made of letters
  and spaces only and is accepted: the record is created.
\<close>

theorem C4_invalid_submission_counterexample:
  "\<not> spec_name_rule ''A1'' \<and>
   app env0 [ann] (post_form Index False ''A1'' ''Lee'' ''ann@x.com'') = ([ann], Bad_request, None) \<and>
   \<not> spec_name_rule (''Ann'' @ [CHR 0x0A]) \<and> newline_accepted (''Ann'' @ [CHR 0x0A]) \<and>
   app env0 [ann] (post_form Index True (''Ann'' @ [CHR 0x0A]) ''Lee'' ''ann@x.com'') =
     ([ann, \<lparr>id_col = 2, fname = ''Ann'', lname = ''Lee'', email = ''ann@x.com''\<rparr>],
      Redirect ''/'', Some (''Student added successfully and securely!'', ''success''))"
  by (simp add: eval_defs spec_name_rule_def ann_def)

text \<open>
  Claim C5, as amended: the delete operation at \<open>/delete/{id}\<close> takes GET and not
  POST; a POST to it is answered with status 405 and changes nothing. For every id that
  fits in 64 bits, a GET answers with the not-found page when no record has that id,
  and otherwise, when the database commits, deletes the record and redirects to \<open>/\<close>
  with a notice; after it, a lookup of the id finds nothing.
\<close>

theorem C5_delete_by_get:
  assumes "target req = Delete i" and "http_method req = GET" and "int i \<le> max_rowid"
    and "commit_ok e"
  shows "app e rows req =
           (case lookup rows (int i) of
              None \<Rightarrow> (rows, Not_found_page, None)
            | Some r \<Rightarrow>
                (filter (\<lambda>r. id_col r \<noteq> int i) rows, Redirect ''/'',
                 Some (''Student deleted securely!'', ''danger''))) \<and>
         lookup (fst (app e rows req)) (int i) = None \<and>
         app e rows (req\<lparr>http_method := POST\<rparr>) = (rows, Method_not_allowed, None)"
proof -
  have first: "app e rows req =
           (case lookup rows (int i) of
              None \<Rightarrow> (rows, Not_found_page, None)
            | Some r \<Rightarrow>
                (filter (\<lambda>r. id_col r \<noteq> int i) rows, Redirect ''/'',
                 Some (''Student deleted securely!'', ''danger'')))"
    using assms by (simp add: app_delete_get split: option.splits)
  have gone: "lookup (fst (app e rows req)) (int i) = None"
  proof (cases "lookup rows (int i)")
    case None
    with first show ?thesis by simp
  next
    case (Some r)
    with first have "fst (app e rows req) = filter (\<lambda>r. id_col r \<noteq> int i) rows" by simp
    then show ?thesis by (simp add: lookup_filter_None)
  qed
  have post: "app e rows (req\<lparr>http_method := POST\<rparr>) = (rows, Method_not_allowed, None)"
    using assms(1) by (simp add: app_def)
  from first gone post show ?thesis by blast
qed

theorem C5_delete_by_get_witness:
  "app env0 [ann] (get_request (Delete 1) None) =
     ([], Redirect ''/'', Some (''Student deleted securely!'', ''danger'')) \<and>
   lookup (fst (app env0 [ann] (get_request (Delete 1) None))) 1 = None \<and>
   app env0 [ann] ((get_request (Delete 1) None)\<lparr>http_method := POST\<rparr>) =
     ([ann], Method_not_allowed, None) \<and>
   app env0 [ann] (get_request (Delete 2) None) = ([ann], Not_found_page, None)"
  using C5_delete_by_get [of "get_request (Delete 1) None" 1 env0 "[ann]"]
    C5_delete_by_get [of "get_request (Delete 2) None" 2 env0 "[ann]"]
  by (simp add: get_request_def env0_def ann_def lookup_def max_rowid_def)

text \<open>
  The claim as written fails for POST: the record with id 1 is in the table, and a POST
  to \<open>/delete/1\<close> with a valid CSRF token is answered with status 405 and deletes nothing.
  A GET of \<open>/delete/1\<close> deletes nothing either when the database refuses the commit, and
  a GET of \<open>/delete/9223372036854775808\<close>, an id no record has, is answered with the page
  of status 500.
\<close>

theorem C5_delete_counterexample:
  "lookup [ann] 1 = Some ann \<and>
   app env0 [ann] (post_form (Delete 1) True [] [] []) = ([ann], Method_not_allowed, None) \<and>
   app (env0\<lparr>commit_ok := False\<rparr>) [ann] (get_request (Delete 1) None) =
     ([ann], Internal_error_page, None) \<and>
   lookup [ann] 9223372036854775808 = None \<and>
   app env0 [ann] (get_request (Delete 9223372036854775808) None) =
     ([ann], Internal_error_page, None)"
  by (simp add: eval_defs ann_def)

text \<open>
  Claim C6, as amended: for every id that fits in 64 bits and has no record in the
  table, a GET of \<open>/update/{id}\<close> and a POST to it that carries a valid CSRF token are
  answered with the not-found page, a POST without a valid token is answered with
  status 400, and in each case the table is unchanged.
\<close>

theorem C6_update_missing_record:
  assumes "target req = Update i" and "int i \<le> max_rowid" and "lookup rows (int i) = None"
  shows "app e rows req =
           (rows,
            if http_method req = POST \<and> \<not> csrf_valid req then Bad_request else Not_found_page,
            None)"
  using assms by (rule app_update_missing)

theorem C6_update_missing_record_witness:
  "app env0 [ann] (get_request (Update 7) None) = ([ann], Not_found_page, None) \<and>
   app env0 [ann] (post_form (Update 7) True ''Anne'' ''Lee'' ''anne@x.com'') =
     ([ann], Not_found_page, None) \<and>
   app env0 [ann] (post_form (Update 7) False ''Anne'' ''Lee'' ''anne@x.com'') =
     ([ann], Bad_request, None)"
  using C6_update_missing_record [of "get_request (Update 7) None" 7 "[ann]" env0]
    C6_update_missing_record
      [of "post_form (Update 7) True ''Anne'' ''Lee'' ''anne@x.com''" 7 "[ann]" env0]
    C6_update_missing_record
      [of "post_form (Update 7) False ''Anne'' ''Lee'' ''anne@x.com''" 7 "[ann]" env0]
  by (simp add: get_request_def post_form_def post_keys_def ann_def lookup_def max_rowid_def)

text \<open>
  The claim as written fails for a POST without a valid CSRF token: no record has id 7,
  and the reply is status 400, not the not-found page. It fails as well for the id
  9223372036854775808, which no record has: the reply to a GET is the page of status
  500.
\<close>

theorem C6_update_missing_counterexample:
  "lookup [ann] 7 = None \<and>
   app env0 [ann] (post_form (Update 7) False ''Anne'' ''Lee'' ''anne@x.com'') =
     ([ann], Bad_request, None) \<and>
   lookup [ann] 9223372036854775808 = None \<and>
   app env0 [ann] (get_request (Update 9223372036854775808) None) =
     ([ann], Internal_error_page, None)"
  by (simp add: eval_defs ann_def)

text \<open>
  Claim C7, as amended: for every record with id \<open>i\<close> in the table, a POST to
  \<open>/update/{i}\<close> that succeeds (the reply is the redirect) was a submission with a valid
  CSRF token whose form validated, and it replaces exactly the three fields \<open>fname\<close>,
  \<open>lname\<close> and \<open>email\<close> of that record with the stripped values of the form: for each
  field the posted value when the body has the field's key, and the value the record
  holds when it has not. The ids of the table are the same in the same order, and
  every record with another id is unchanged.
\<close>

theorem C7_update_replaces_three_fields:
  assumes "target req = Update i" and "lookup rows (int i) = Some old"
    and "app e rows req = (rows', Redirect loc, n)"
  shows "http_method req = POST \<and> csrf_valid req \<and>
         validate (email_ok e) (form_data req (Some old)) \<and>
         loc = ''/'' \<and> n = Some (''Record updated securely!'', ''info'') \<and>
         rows' = map (\<lambda>r. if id_col r = int i
                           then r\<lparr>fname := strip (fname_field (form_data req (Some old))),
                                  lname := strip (lname_field (form_data req (Some old))),
                                  email := strip (email_field (form_data req (Some old)))\<rparr>
                           else r) rows \<and>
         fname_field (form_data req (Some old)) =
           (case fname_key (posted req) of Some v \<Rightarrow> v | None \<Rightarrow> fname old) \<and>
         lname_field (form_data req (Some old)) =
           (case lname_key (posted req) of Some v \<Rightarrow> v | None \<Rightarrow> lname old) \<and>
         email_field (form_data req (Some old)) =
           (case email_key (posted req) of Some v \<Rightarrow> v | None \<Rightarrow> email old) \<and>
         map id_col rows' = map id_col rows \<and>
         filter (\<lambda>r. id_col r \<noteq> int i) rows' = filter (\<lambda>r. id_col r \<noteq> int i) rows"
proof -
  let ?fd = "form_data req (Some old)"
  let ?f = "\<lambda>r. if id_col r = int i
                  then r\<lparr>fname := strip (fname_field ?fd),
                         lname := strip (lname_field ?fd),
                         email := strip (email_field ?fd)\<rparr>
                  else r"
  have range: "int i \<le> max_rowid"
  proof (rule ccontr)
    assume "\<not> int i \<le> max_rowid"
    then have "app e rows req =
        (rows,
         if http_method req = POST \<and> \<not> csrf_valid req then Bad_request
         else if debug e then Debugger_page OverflowError else Internal_error_page,
         None)"
      using assms(1) by (simp add: app_update_overflow)
    with assms(3) show False by (auto split: if_splits)
  qed
  have eq: "(rows', Redirect loc, n) =
     (if http_method req = POST \<and> \<not> csrf_valid req then (rows, Bad_request, None)
      else if http_method req = POST \<and> validate (email_ok e) ?fd then
        if commit_ok e then
          (map ?f rows, Redirect ''/'', Some (''Record updated securely!'', ''info''))
        else (rows, if debug e then Debugger_page StoreError else Internal_error_page, None)
      else (rows, Update_page (StudentForm e req (Some old)) old, None))"
    using app_update_found [OF assms(1) range assms(2), of e] assms(3) by simp
  then have cond: "http_method req = POST \<and> csrf_valid req \<and> validate (email_ok e) ?fd"
    and reply: "loc = ''/'' \<and> n = Some (''Record updated securely!'', ''info'')"
    and rows': "rows' = map ?f rows"
    by (auto split: if_splits)
  have data: "fname_field ?fd = (case fname_key (posted req) of Some v \<Rightarrow> v | None \<Rightarrow> fname old) \<and>
      lname_field ?fd = (case lname_key (posted req) of Some v \<Rightarrow> v | None \<Rightarrow> lname old) \<and>
      email_field ?fd = (case email_key (posted req) of Some v \<Rightarrow> v | None \<Rightarrow> email old)"
    by (simp add: form_data_def field_value_def split: option.splits)
  have ids: "map id_col (map ?f rows) = map id_col rows"
    by (induction rows) auto
  have others:
    "filter (\<lambda>r. id_col r \<noteq> int i) (map ?f rows) = filter (\<lambda>r. id_col r \<noteq> int i) rows"
    by (induction rows) auto
  from cond reply rows' data ids others show ?thesis by simp
qed

theorem C7_update_replaces_three_fields_witness:
  "app env0 [ann, bob] (post_form (Update 1) True ''Anne '' ''Lee'' ''anne@x.com'') =
     ([\<lparr>id_col = 1, fname = ''Anne'', lname = ''Lee'', email = ''anne@x.com''\<rparr>, bob],
      Redirect ''/'', Some (''Record updated securely!'', ''info'')) \<and>
   map id_col [\<lparr>id_col = 1, fname = ''Anne'', lname = ''Lee'', email = ''anne@x.com''\<rparr>, bob] =
     map id_col [ann, bob] \<and>
   filter (\<lambda>r. id_col r \<noteq> 1)
     [\<lparr>id_col = 1, fname = ''Anne'', lname = ''Lee'', email = ''anne@x.com''\<rparr>, bob] =
     filter (\<lambda>r. id_col r \<noteq> 1) [ann, bob]"
proof -
  have run: "app env0 [ann, bob] (post_form (Update 1) True ''Anne '' ''Lee'' ''anne@x.com'') =
     ([\<lparr>id_col = 1, fname = ''Anne'', lname = ''Lee'', email = ''anne@x.com''\<rparr>, bob],
      Redirect ''/'', Some (''Record updated securely!'', ''info''))"
    by (simp add: eval_defs ann_def bob_def)
  have found: "lookup [ann, bob] (int 1) = Some ann"
    by (simp add: lookup_def ann_def)
  have tgt: "target (post_form (Update 1) True ''Anne '' ''Lee'' ''anne@x.com'') = Update 1"
    by (simp add: post_form_def post_keys_def)
  show ?thesis
    using C7_update_replaces_three_fields [OF tgt found run] run
    by (simp add: ann_def bob_def)
qed

text \<open>
  The claim as written fails for a POST whose body has no key for the first name: the
  form keeps the first name of the record, validates it and the request succeeds, so
  the first name after the update is not a submitted value.
\<close>

theorem C7_update_counterexample:
  "fname_key (posted (post_keys (Update 1) True None (Some ''Lea'') (Some ''lea@x.com''))) = None \<and>
   app env0 [ann, bob] (post_keys (Update 1) True None (Some ''Lea'') (Some ''lea@x.com'')) =
     ([\<lparr>id_col = 1, fname = ''Ann'', lname = ''Lea'', email = ''lea@x.com''\<rparr>, bob],
      Redirect ''/'', Some (''Record updated securely!'', ''info''))"
  by (simp add: eval_defs ann_def bob_def)

text \<open>
  Claim C9: on any internal failure the mutation of the failed request is rolled back
  and the error page reveals no internal state. Started through its \<open>__main__\<close> block
  the application runs in debug mode, where Flask does not call the handler of status
  500 for an exception a view raised: a GET of \<open>/update/9223372036854775808\<close> makes the
  lookup raise \<open>OverflowError\<close>, and a creation whose commit the database refuses
  raises as well; both are answered with the debugger's page for the exception. The
  table is as before the request.
\<close>

theorem C9_debugger_shows_exception:
  "app \<lparr>email_ok = email_shape, debug = main_debug, commit_ok = True,
        row_is_mapping = False\<rparr> [ann]
       (get_request (Update 9223372036854775808) None) =
     ([ann], Debugger_page OverflowError, None) \<and>
   app \<lparr>email_ok = email_shape, debug = main_debug, commit_ok = False,
        row_is_mapping = False\<rparr> [ann]
       (post_form Index True ''Bob'' ''Ray'' ''bob@x.com'') =
     ([ann], Debugger_page StoreError, None)"
  by (simp add: eval_defs main_debug_def ann_def)

text \<open>
  Claim C10: when the \<open>email\<close> argument of \<open>GET /search\<close> is present and empty, the
  reply is the empty result for every table, also one that holds a record whose email
  is empty, and it is the reply to the same request without the argument.
\<close>

theorem C10_empty_email_argument:
  assumes "target req = Search" and "http_method req = GET" and "args_email req = Some []"
  shows "app e rows req = (rows, Json_result [], None) \<and>
         app e rows req = app e rows (req\<lparr>args_email := None\<rparr>)"
  using assms by (simp add: app_search)

theorem C10_empty_email_argument_witness:
  "app env0 [blank_email_row] (get_request Search (Some [])) =
     ([blank_email_row], Json_result [], None) \<and>
   app env0 [blank_email_row] (get_request Search (Some [])) =
     app env0 [blank_email_row] ((get_request Search (Some []))\<lparr>args_email := None\<rparr>)"
  by (rule C10_empty_email_argument) (simp_all add: get_request_def)

end
